theory Spec2Isabelle
  imports Complex_Main "HOL-Library.Multiset"
begin

section \<open>The declarations of \<open>src/types.ts\<close>\<close>

text \<open>
  \<open>src/types.ts\<close> holds the data model of the drag-and-drop engine as TypeScript
  interface declarations. A declaration is data here: an interface is its name, the
  interfaces it extends, its index signature (if any) and its members in source order;
  a member is its name, whether it is written with \<open>?\<close> (optional), and its type.
  The member types refer to each other through function arguments
  (\<open>ParentConfig.accepts\<close> takes \<open>ParentRecord\<close>s, which hold a \<open>ParentConfig\<close>),
  so the types are kept as the source writes them, by name. The types of the browser
  (\<open>HTMLElement\<close>, \<open>Event\<close>, \<open>AbortController\<close> and the like) are names only.
\<close>

datatype ts_type =
    TBoolean
  | TNumber
  | TString
  | TAny
  | TVoid
  | TUndefined
  | TLit string
  | TRef string
  | TArray ts_type
  | TUnion "ts_type list"
  | TFun "(string \<times> ts_type) list" ts_type
  | TObj "(string \<times> bool \<times> ts_type) list"
  | TRecordOf ts_type ts_type
  | TPartial ts_type
  | TWeakMap ts_type ts_type
  | TReturnTypeOf string

type_synonym member = "string \<times> bool \<times> ts_type"

text \<open>A member written \<open>name: T\<close> is required, one written \<open>name?: T\<close> is optional.\<close>

definition required :: "string \<Rightarrow> ts_type \<Rightarrow> member" where
  "required n t = (n, False, t)"

definition optional :: "string \<Rightarrow> ts_type \<Rightarrow> member" where
  "optional n t = (n, True, t)"

record interface =
  i_name :: string
  i_extends :: "string list"
  i_index :: "ts_type option"
  i_members :: "member list"

subsection \<open>Registration and configuration (lines 4 to 163)\<close>

definition DragAndDrop :: interface where
  "DragAndDrop = \<lparr>
     i_name = ''DragAndDrop'', i_extends = [], i_index = None,
     i_members = [
       required ''parent'' (TRef ''HTMLElement''),
       required ''getValues'' (TFun [(''parent'', TRef ''HTMLElement'')] (TArray TAny)),
       required ''setValues''
         (TFun [(''values'', TArray TAny), (''parent'', TRef ''HTMLElement'')] TVoid),
       optional ''config'' (TPartial (TRef ''ParentConfig''))] \<rparr>"

definition ParentConfig :: interface where
  "ParentConfig = \<lparr>
     i_name = ''ParentConfig'', i_extends = [], i_index = Some TAny,
     i_members = [
       optional ''accepts''
         (TFun [(''targetParentData'', TRef ''ParentRecord''),
                (''initialParentData'', TRef ''ParentRecord''),
                (''lastParentData'', TRef ''ParentRecord''),
                (''state'', TUnion [TRef ''DragState'', TRef ''TouchState''])] TBoolean),
       optional ''disabled'' TBoolean,
       optional ''dragHandle'' TString,
       optional ''draggable'' (TFun [(''child'', TRef ''HTMLElement'')] TBoolean),
       optional ''draggingClass'' TString,
       optional ''dropZoneClass'' TString,
       optional ''dropZone'' TBoolean,
       optional ''group'' TString,
       required ''handleEnd''
         (TFun [(''data'', TUnion [TRef ''NodeDragEventData'', TRef ''NodeTouchEventData''])]
            TVoid),
       required ''handleDragstart'' (TFun [(''data'', TRef ''NodeDragEventData'')] TVoid),
       required ''handleTouchstart'' (TFun [(''data'', TRef ''NodeTouchEventData'')] TVoid),
       required ''handleDragoverParent''
         (TFun [(''data'', TRef ''ParentDragEventData'')] TVoid),
       required ''handleDragoverNode'' (TFun [(''data'', TRef ''NodeDragEventData'')] TVoid),
       required ''handleTouchmove'' (TFun [(''data'', TRef ''NodeTouchEventData'')] TVoid),
       required ''handleTouchOverNode'' (TFun [(''data'', TRef ''TouchOverNodeEvent'')] TVoid),
       required ''handleTouchOverParent'' (TFun [(''e'', TRef ''TouchOverParentEvent'')] TVoid),
       optional ''longTouch'' TBoolean,
       optional ''longTouchClass'' TString,
       optional ''longTouchTimeout'' TNumber,
       optional ''name'' TString,
       required ''performSort''
         (TFun [(''state'', TUnion [TRef ''DragState'', TRef ''TouchState'']),
                (''data'', TUnion [TRef ''NodeDragEventData'', TRef ''NodeTouchEventData''])]
            TVoid),
       required ''performTransfer''
         (TFun [(''state'', TUnion [TRef ''DragState'', TRef ''TouchState'']),
                (''data'', TUnion [TRef ''NodeEventData'', TRef ''ParentEventData''])]
            TVoid),
       optional ''plugins'' (TArray (TRef ''DNDPlugin'')),
       required ''root'' (TUnion [TRef ''Document'', TRef ''ShadowRoot'']),
       required ''setupNode'' (TRef ''SetupNode''),
       optional ''sortable'' TBoolean,
       required ''tearDownNode'' (TRef ''TearDownNode''),
       required ''threshold''
         (TObj [(''horizontal'', False, TNumber), (''vertical'', False, TNumber)]),
       optional ''touchDraggingClass'' TString,
       optional ''touchDropZoneClass'' TString] \<rparr>"

subsection \<open>The data of parents and nodes (lines 168 to 212)\<close>

definition ParentData :: interface where
  "ParentData = \<lparr>
     i_name = ''ParentData'', i_extends = [], i_index = None,
     i_members = [
       required ''getValues'' (TFun [(''parent'', TRef ''HTMLElement'')] (TArray TAny)),
       required ''setValues''
         (TFun [(''values'', TArray TAny), (''parent'', TRef ''HTMLElement'')] TVoid),
       required ''config'' (TRef ''ParentConfig''),
       required ''enabledNodes'' (TArray (TRef ''NodeRecord'')),
       required ''abortControllers'' (TRecordOf TString (TRef ''AbortController''))] \<rparr>"

definition NodeData :: interface where
  "NodeData = \<lparr>
     i_name = ''NodeData'', i_extends = [], i_index = None,
     i_members = [
       required ''index'' TNumber,
       required ''value'' TAny,
       required ''privateClasses'' (TArray TString),
       required ''abortControllers'' (TRecordOf TString (TRef ''AbortController''))] \<rparr>"

subsection \<open>Event payloads and records (lines 217 to 359)\<close>

definition NodeEventData :: interface where
  "NodeEventData = \<lparr>
     i_name = ''NodeEventData'', i_extends = [], i_index = None,
     i_members = [
       required ''e'' (TRef ''Event''),
       required ''targetData'' (TRef ''NodeTargetData'')] \<rparr>"

definition NodeDragEventData :: interface where
  "NodeDragEventData = \<lparr>
     i_name = ''NodeDragEventData'', i_extends = [''NodeEventData''], i_index = None,
     i_members = [
       required ''e'' (TRef ''DragEvent'')] \<rparr>"

definition ParentDragEventData :: interface where
  "ParentDragEventData = \<lparr>
     i_name = ''ParentDragEventData'', i_extends = [''ParentEventData''], i_index = None,
     i_members = [
       required ''e'' (TRef ''DragEvent'')] \<rparr>"

definition NodeTouchEventData :: interface where
  "NodeTouchEventData = \<lparr>
     i_name = ''NodeTouchEventData'', i_extends = [''NodeEventData''], i_index = None,
     i_members = [
       required ''e'' (TRef ''TouchEvent''),
       required ''targetData'' (TRef ''NodeTargetData'')] \<rparr>"

definition ParentEventData :: interface where
  "ParentEventData = \<lparr>
     i_name = ''ParentEventData'', i_extends = [], i_index = None,
     i_members = [
       required ''e'' (TRef ''Event''),
       required ''targetData'' (TRef ''ParentTargetData'')] \<rparr>"

definition ParentTargetData :: interface where
  "ParentTargetData = \<lparr>
     i_name = ''ParentTargetData'', i_extends = [], i_index = None,
     i_members = [
       required ''parent'' (TRef ''ParentRecord'')] \<rparr>"

definition NodeTargetData :: interface where
  "NodeTargetData = \<lparr>
     i_name = ''NodeTargetData'', i_extends = [], i_index = None,
     i_members = [
       required ''node'' (TRef ''NodeRecord''),
       required ''parent'' (TRef ''ParentRecord'')] \<rparr>"

definition NodeRecord :: interface where
  "NodeRecord = \<lparr>
     i_name = ''NodeRecord'', i_extends = [], i_index = None,
     i_members = [
       required ''el'' (TRef ''Node''),
       required ''data'' (TRef ''NodeData'')] \<rparr>"

definition ParentRecord :: interface where
  "ParentRecord = \<lparr>
     i_name = ''ParentRecord'', i_extends = [], i_index = None,
     i_members = [
       required ''el'' (TRef ''HTMLElement''),
       required ''data'' (TRef ''ParentData'')] \<rparr>"

definition NodeFromPoint :: interface where
  "NodeFromPoint = \<lparr>
     i_name = ''NodeFromPoint'', i_extends = [], i_index = None,
     i_members = [
       required ''node'' (TRef ''NodeRecord''),
       required ''parent'' (TRef ''ParentRecord'')] \<rparr>"

definition ParentFromPoint :: interface where
  "ParentFromPoint = \<lparr>
     i_name = ''ParentFromPoint'', i_extends = [], i_index = None,
     i_members = [
       required ''parent'' (TRef ''ParentRecord'')] \<rparr>"

definition Node :: interface where
  "Node = \<lparr>
     i_name = ''Node'', i_extends = [''HTMLElement''], i_index = None,
     i_members = [
       required ''parentNode'' (TRef ''HTMLElement'')] \<rparr>"

definition TouchOverNodeEvent :: interface where
  "TouchOverNodeEvent = \<lparr>
     i_name = ''TouchOverNodeEvent'', i_extends = [''Event''], i_index = None,
     i_members = [
       required ''detail''
         (TObj [(''e'', False, TRef ''TouchEvent''),
                (''targetData'', False, TRef ''NodeTargetData'')])] \<rparr>"

definition TouchOverParentEvent :: interface where
  "TouchOverParentEvent = \<lparr>
     i_name = ''TouchOverParentEvent'', i_extends = [''Event''], i_index = None,
     i_members = [
       required ''detail''
         (TObj [(''e'', False, TRef ''TouchEvent''),
                (''targetData'', False, TRef ''ParentTargetData'')])] \<rparr>"

subsection \<open>Plugins and the payloads of their hooks (lines 379 to 458)\<close>

definition DNDPluginData :: interface where
  "DNDPluginData = \<lparr>
     i_name = ''DNDPluginData'', i_extends = [], i_index = None,
     i_members = [
       optional ''setup'' (TFun [] TVoid),
       optional ''tearDown'' (TFun [] TVoid),
       optional ''setupNode'' (TRef ''SetupNode''),
       optional ''tearDownNode'' (TRef ''TearDownNode'')] \<rparr>"

definition PluginData :: interface where
  "PluginData = \<lparr>
     i_name = ''PluginData'', i_extends = [], i_index = None,
     i_members = [
       required ''parent'' (TRef ''HTMLElement'')] \<rparr>"

definition DragAndDropData :: interface where
  "DragAndDropData = \<lparr>
     i_name = ''DragAndDropData'', i_extends = [], i_index = None,
     i_members = [
       required ''parent'' (TRef ''HTMLElement''),
       required ''values'' (TArray TAny)] \<rparr>"

definition SetupNodeData :: interface where
  "SetupNodeData = \<lparr>
     i_name = ''SetupNodeData'', i_extends = [], i_index = None,
     i_members = [
       required ''node'' (TRef ''Node''),
       required ''nodeData'' (TRef ''NodeData''),
       required ''parent'' (TRef ''HTMLElement''),
       required ''parentData'' (TRef ''ParentData'')] \<rparr>"

definition TearDownNodeData :: interface where
  "TearDownNodeData = \<lparr>
     i_name = ''TearDownNodeData'', i_extends = [], i_index = None,
     i_members = [
       required ''node'' (TRef ''Node''),
       optional ''nodeData'' (TRef ''NodeData''),
       required ''parent'' (TRef ''HTMLElement''),
       required ''parentData'' (TRef ''ParentData'')] \<rparr>"

text \<open>
  The type aliases of the file (lines 330, 364 to 374, 405 to 414 and 460), by name.
\<close>

definition alias_of :: "string \<Rightarrow> ts_type option" where
  "alias_of n =
     (if n = ''NodeEvent'' then Some (TFun [(''data'', TRef ''NodeEventData'')] TVoid)
      else if n = ''NodesData'' then Some (TWeakMap (TRef ''Node'') (TRef ''NodeData''))
      else if n = ''ParentsData'' then
        Some (TWeakMap (TRef ''HTMLElement'') (TRef ''ParentData''))
      else if n = ''ParentObservers'' then
        Some (TWeakMap (TRef ''HTMLElement'') (TRef ''MutationObserver''))
      else if n = ''DNDPlugin'' then
        Some (TFun [(''parent'', TRef ''HTMLElement'')]
                (TUnion [TRef ''DNDPluginData'', TUndefined]))
      else if n = ''SetupNode'' then Some (TFun [(''data'', TRef ''SetupNodeData'')] TVoid)
      else if n = ''TearDownNode'' then Some (TFun [(''data'', TRef ''TearDownNodeData'')] TVoid)
      else if n = ''EventHandlers'' then
        Some (TRecordOf TString (TFun [(''e'', TRef ''Event'')] TVoid))
      else None)"

subsection \<open>Session state (lines 466 to 605)\<close>

definition TouchState :: interface where
  "TouchState = \<lparr>
     i_name = ''TouchState'', i_extends = [''DragState''], i_index = None,
     i_members = [
       required ''touchMoving'' TBoolean,
       required ''touchStartLeft'' TNumber,
       required ''touchStartTop'' TNumber,
       required ''touchedNode'' (TRef ''HTMLElement''),
       required ''longTouchTimeout'' (TUnion [TReturnTypeOf ''setTimeout'', TUndefined]),
       required ''scrollParent'' (TUnion [TRef ''HTMLElement'', TUndefined]),
       required ''scrollParentOverflow'' (TUnion [TString, TUndefined]),
       required ''longTouch'' TBoolean,
       required ''touchedNodeDisplay'' (TUnion [TString, TUndefined])] \<rparr>"

definition DragState :: interface where
  "DragState = \<lparr>
     i_name = ''DragState'', i_extends = [''DragStateProps''], i_index = None,
     i_members = [
       required ''activeNode'' (TUnion [TRef ''NodeRecord'', TUndefined]),
       required ''affectedNodes'' (TArray (TRef ''NodeRecord'')),
       required ''ascendingDirection'' TBoolean,
       required ''clonedDraggedEls'' (TArray (TRef ''Element'')),
       required ''draggedNode'' (TRef ''NodeRecord''),
       required ''draggedNodes'' (TArray (TRef ''NodeRecord'')),
       required ''incomingDirection''
         (TUnion [TLit ''above'', TLit ''below'', TLit ''left'', TLit ''right'', TUndefined]),
       required ''initialParent'' (TRef ''ParentRecord''),
       required ''lastParent'' (TRef ''ParentRecord''),
       required ''lastValue'' TAny,
       required ''originalZIndex'' (TUnion [TString, TUndefined]),
       required ''preventEnter'' TBoolean,
       required ''swappedNodeValue'' (TUnion [TAny, TUndefined]),
       required ''targetIndex'' TNumber] \<rparr>"

definition DragStateProps :: interface where
  "DragStateProps = \<lparr>
     i_name = ''DragStateProps'', i_extends = [], i_index = None,
     i_members = [
       required ''draggedNode'' (TRef ''NodeRecord''),
       required ''draggedNodes'' (TArray (TRef ''NodeRecord'')),
       required ''initialParent'' (TRef ''ParentRecord''),
       required ''lastParent'' (TRef ''ParentRecord'')] \<rparr>"

definition TouchStateProps :: interface where
  "TouchStateProps = \<lparr>
     i_name = ''TouchStateProps'', i_extends = [], i_index = None,
     i_members = [
       required ''touchedNode'' (TRef ''HTMLElement''),
       required ''touchStartLeft'' TNumber,
       required ''touchStartTop'' TNumber] \<rparr>"

subsection \<open>Reading a declaration\<close>

definition types_ts :: "interface list" where
  "types_ts = [DragAndDrop, ParentConfig, ParentData, NodeData, NodeEventData,
     NodeDragEventData, ParentDragEventData, NodeTouchEventData, ParentEventData,
     ParentTargetData, NodeTargetData, NodeRecord, ParentRecord, NodeFromPoint,
     ParentFromPoint, Node, TouchOverNodeEvent, TouchOverParentEvent, DNDPluginData,
     PluginData, DragAndDropData, SetupNodeData, TearDownNodeData, TouchState, DragState,
     DragStateProps, TouchStateProps]"

definition lookup_interface :: "string \<Rightarrow> interface option" where
  "lookup_interface n = find (\<lambda>i. i_name i = n) types_ts"

text \<open>
  The members of an interface are its own and those of the interfaces it extends that
  it does not declare again. \<open>k\<close> bounds the depth of the \<open>extends\<close> chain followed.
  An interface of the browser that is extended (\<open>HTMLElement\<close>, \<open>Event\<close>) is not
  declared in the file, and contributes no member here.
\<close>

fun members_upto :: "nat \<Rightarrow> interface \<Rightarrow> member list" where
  "members_upto 0 i = i_members i"
| "members_upto (Suc k) i =
     filter (\<lambda>m. fst m \<notin> set (map fst (i_members i)))
       (concat (map (\<lambda>b. case lookup_interface b of
                            None \<Rightarrow> []
                          | Some bi \<Rightarrow> members_upto k bi) (i_extends i)))
     @ i_members i"

definition members_of :: "interface \<Rightarrow> member list" where
  "members_of i = members_upto (length types_ts) i"

definition member_names :: "interface \<Rightarrow> string list" where
  "member_names i = map fst (members_of i)"

definition find_member :: "interface \<Rightarrow> string \<Rightarrow> (bool \<times> ts_type) option" where
  "find_member i n = map_of (members_of i) n"

text \<open>
  The values of a type built from literals, \<open>undefined\<close> and \<open>boolean\<close> only; any other
  type has no finite list of values (\<open>None\<close>).
\<close>

datatype ts_value = VString string | VBool bool | VUndefined

fun values_of :: "ts_type \<Rightarrow> ts_value list option" where
  "values_of (TLit s) = Some [VString s]"
| "values_of TUndefined = Some [VUndefined]"
| "values_of TBoolean = Some [VBool True, VBool False]"
| "values_of (TUnion []) = Some []"
| "values_of (TUnion (t # ts)) =
     (case (values_of t, values_of (TUnion ts)) of
        (Some vs, Some ws) \<Rightarrow> Some (vs @ ws)
      | _ \<Rightarrow> None)"
| "values_of _ = None"

text \<open>
  The members of an interface that offer a choice among finitely many values: flags and
  unions of literals.
\<close>

definition finite_choice_names :: "interface \<Rightarrow> string list" where
  "finite_choice_names i =
     map fst (filter (\<lambda>m. values_of (snd (snd m)) \<noteq> None) (members_of i))"

text \<open>
  The four flags of \<open>ParentConfig\<close>, each with the documentation comment the source
  gives it (lines 38, 58, 101 and 143).
\<close>

definition documented_flags :: "(string \<times> string) list" where
  "documented_flags = [
     (''disabled'', ''A flag to disable dragability of all nodes in the parent.''),
     (''dropZone'', ''A flag to indicate whether the parent itself is a dropZone.''),
     (''longTouch'', ''A flag to indicate whether long touch is enabled.''),
     (''sortable'', ''Flag for whether or not to allow sorting within a given parent.'')]"

definition undocumented_choices :: "interface \<Rightarrow> string list" where
  "undocumented_choices i =
     filter (\<lambda>n. n \<notin> set (map fst documented_flags)) (finite_choice_names i)"

section \<open>The lists of the specification\<close>

text \<open>
  Following the spec's words (section 3, Drag session): the fields a drag session
  holds, with \<open>draggedNode(s)\<close> read as the two members \<open>draggedNode\<close> and
  \<open>draggedNodes\<close>.
\<close>

definition spec_session_fields :: "string list" where
  "spec_session_fields = [''draggedNode'', ''draggedNodes'', ''initialParent'',
     ''lastParent'', ''targetIndex'', ''incomingDirection'', ''ascendingDirection'',
     ''activeNode'', ''affectedNodes'', ''swappedNodeValue'', ''originalZIndex'',
     ''preventEnter'', ''clonedDraggedEls'']"

text \<open>
  Following the spec's words (section 6, \<open>registerParent\<close>): the options the
  configuration enumerates, each with the kind of value the spec states for it.
\<close>

datatype spec_kind =
    KBool | KSelector | KPredicate | KClassName | KString | KMillis | KThreshold
  | KOrderedList | KStrategy | KLifecycleHook | KRoot

definition spec_config_options :: "(string \<times> spec_kind) list" where
  "spec_config_options = [
     (''disabled'', KBool), (''dragHandle'', KSelector), (''draggable'', KPredicate),
     (''draggingClass'', KClassName), (''dropZoneClass'', KClassName),
     (''touchDraggingClass'', KClassName), (''touchDropZoneClass'', KClassName),
     (''dropZone'', KBool), (''group'', KString), (''longTouch'', KBool),
     (''longTouchClass'', KClassName), (''longTouchTimeout'', KMillis), (''name'', KString),
     (''sortable'', KBool), (''threshold'', KThreshold), (''plugins'', KOrderedList),
     (''accepts'', KPredicate), (''performSort'', KStrategy),
     (''performTransfer'', KStrategy), (''setupNode'', KLifecycleHook),
     (''tearDownNode'', KLifecycleHook), (''root'', KRoot)]"

text \<open>The result type of a function type, written out or named by an alias.\<close>

definition result_type :: "ts_type \<Rightarrow> ts_type option" where
  "result_type t =
     (case t of
        TFun ps r \<Rightarrow> Some r
      | TRef a \<Rightarrow> (case alias_of a of Some (TFun ps r) \<Rightarrow> Some r | _ \<Rightarrow> None)
      | _ \<Rightarrow> None)"

definition is_array :: "ts_type \<Rightarrow> bool" where
  "is_array t = (case t of TArray e \<Rightarrow> True | _ \<Rightarrow> False)"

text \<open>
  When a declared type is of the kind the spec states. A fraction is a \<open>number\<close>: the
  type does not bound it.
\<close>

fun has_kind :: "spec_kind \<Rightarrow> ts_type \<Rightarrow> bool" where
  "has_kind KBool t = (t = TBoolean)"
| "has_kind KSelector t = (t = TString)"
| "has_kind KClassName t = (t = TString)"
| "has_kind KString t = (t = TString)"
| "has_kind KMillis t = (t = TNumber)"
| "has_kind KPredicate t = (result_type t = Some TBoolean)"
| "has_kind KStrategy t = (result_type t = Some TVoid)"
| "has_kind KLifecycleHook t = (result_type t = Some TVoid)"
| "has_kind KOrderedList t = is_array t"
| "has_kind KThreshold t =
     (t = TObj [(''horizontal'', False, TNumber), (''vertical'', False, TNumber)])"
| "has_kind KRoot t = (t = TUnion [TRef ''Document'', TRef ''ShadowRoot''])"

definition option_conforms :: "string \<times> spec_kind \<Rightarrow> bool" where
  "option_conforms entry =
     (case find_member ParentConfig (fst entry) of
        None \<Rightarrow> False
      | Some d \<Rightarrow> has_kind (snd entry) (snd d))"

section \<open>The engine's records, as the operations below use them\<close>

text \<open>
  The records of \<open>src/types.ts\<close> that the resolvers read and write. An element is
  known by its identity (a number): the source keys its registry by element
  (\<open>WeakMap<HTMLElement, ParentData>\<close>), and the session refers to nodes and parents
  that live in the registry, so where the source holds a \<open>NodeRecord\<close> or a
  \<open>ParentRecord\<close> in the session, the session here holds the element. The application
  owns the backing collections: \<open>getValues\<close> reads a parent's collection from the
  application state \<open>'a\<close> and \<open>setValues\<close> replaces it there. A value (\<open>any\<close> in the
  source) is of type \<open>'v\<close>; a member that may be \<open>undefined\<close> is an option; the abort
  controllers are known by their keys. Of the configuration, \<open>parent_config\<close> keeps the
  two options the operations below read, \<open>group\<close> and \<open>threshold\<close>.
\<close>

record 'v node_data =
  index :: nat
  node_value :: 'v
  privateClasses :: "string list"
  node_abortControllers :: "string list"

record 'v node_record =
  node_el :: nat
  n_data :: "'v node_data"

record threshold =
  horizontal :: real
  vertical :: real

record parent_config =
  cfg_group :: "string option"
  cfg_threshold :: threshold

record ('v, 'a) parent_data =
  getValues :: "nat \<Rightarrow> 'a \<Rightarrow> 'v list"
  setValues :: "'v list \<Rightarrow> nat \<Rightarrow> 'a \<Rightarrow> 'a"
  config :: parent_config
  enabledNodes :: "'v node_record list"
  parent_abortControllers :: "string list"

record ('v, 'a) parent_record =
  parent_el :: nat
  p_data :: "('v, 'a) parent_data"

text \<open>
  \<open>DragState.incomingDirection\<close> is \<open>"above" | "below" | "left" | "right" | undefined\<close>
  (line 562): a direction, or none.
\<close>

datatype direction = Above | Below | Left | Right

record 'v drag_state =
  activeNode :: "nat option"
  affectedNodes :: "nat list"
  ascendingDirection :: bool
  clonedDraggedEls :: "nat list"
  draggedNode :: nat
  draggedNodes :: "nat list"
  incomingDirection :: "direction option"
  initialParent :: nat
  lastParent :: nat
  lastValue :: 'v
  originalZIndex :: "string option"
  preventEnter :: bool
  swappedNodeValue :: "'v option"
  targetIndex :: nat

record ('v, 'a) engine =
  app :: 'a
  parents :: "nat \<Rightarrow> ('v, 'a) parent_data option"
  session :: "'v drag_state option"

definition node_values :: "'v node_record list \<Rightarrow> 'v list" where
  "node_values nodes = map (\<lambda>r. node_value (n_data r)) nodes"

text \<open>
  A node's \<open>index\<close> is its position in \<open>enabledNodes\<close> (line 196, and section 3 of the
  spec).
\<close>

definition indices_ok :: "'v node_record list \<Rightarrow> bool" where
  "indices_ok nodes = (map (\<lambda>r. index (n_data r)) nodes = [0..<length nodes])"

section \<open>Sort Resolver\<close>

text \<open>
  Modelled from the spec: the Sort Resolver (section 4.3), whose code (the
  \<open>performSort\<close> strategy) is not among the sources; \<open>src/types.ts\<close> declares only its
  type. An over-event names the target node by its index and says whether the pointer
  is inside the dead zone of the threshold (step 3).
\<close>

record over_event =
  target :: nat
  in_dead_zone :: bool

text \<open>
  Modelled from the spec: "targetIndex clamped to [0, length - 1]" (section 4.3, edge
  cases).
\<close>

definition clamp_index :: "nat \<Rightarrow> nat \<Rightarrow> nat" where
  "clamp_index len t = min t (len - 1)"

text \<open>
  Modelled from the spec: "swap (two-element exchange)" (section 4.3, step 4). Called
  with both positions inside the list.
\<close>

definition swap_nodes :: "nat \<Rightarrow> nat \<Rightarrow> 'x list \<Rightarrow> 'x list" where
  "swap_nodes i j xs = xs[i := xs ! j, j := xs ! i]"

text \<open>
  Modelled from the spec: "shift (contiguous shift of every node between old and new
  position)" (section 4.3, step 4): the node leaves position \<open>i\<close> and enters at \<open>j\<close>.
  Called with both positions inside the list.
\<close>

definition shift_nodes :: "nat \<Rightarrow> nat \<Rightarrow> 'x list \<Rightarrow> 'x list" where
  "shift_nodes i j xs =
     (let x = xs ! i; ys = take i xs @ drop (Suc i) xs
      in take j ys @ [x] @ drop j ys)"

text \<open>
  Modelled from the spec: "re-derive index for every affected node" (section 4.3, step
  6), the affected nodes being those at the positions \<open>lo\<close> to \<open>hi\<close> (step 5).
\<close>

definition rederive_index :: "nat \<Rightarrow> nat \<Rightarrow> 'v node_record list \<Rightarrow> 'v node_record list" where
  "rederive_index lo hi nodes =
     map (\<lambda>(k, r). if lo \<le> k \<and> k \<le> hi then r\<lparr>n_data := (n_data r)\<lparr>index := k\<rparr>\<rparr> else r)
       (enumerate 0 nodes)"

text \<open>
  Modelled from the spec: one over-event on a node of the session's current parent
  (section 4.3, steps 2 and 4 to 6, with its edge cases, and section 7 for records that
  are gone). \<open>swap\<close> is the explicit policy flag of step 4. Nothing happens without a
  session, when the parent or the dragged node is no longer registered, while
  \<open>preventEnter\<close> is set, inside the dead zone, or on a self-drop. Otherwise the commit
  reorders \<open>enabledNodes\<close>, re-derives the indices of the affected nodes, and pushes the
  full reordered value sequence through \<open>setValues\<close>. Of a multi-selection the leading
  element \<open>draggedNode\<close> is the one resolved and moved. The geometry of steps 1 and 3
  enters through \<open>in_dead_zone\<close> only: the step leaves \<open>incomingDirection\<close> as it is.
\<close>

definition sort_step :: "bool \<Rightarrow> ('v, 'a) engine \<Rightarrow> over_event \<Rightarrow> ('v, 'a) engine" where
  "sort_step swap st ev =
     (case session st of
        None \<Rightarrow> st
      | Some s \<Rightarrow>
         (case parents st (lastParent s) of
            None \<Rightarrow> st
          | Some p \<Rightarrow>
             (case find (\<lambda>r. node_el r = draggedNode s) (enabledNodes p) of
                None \<Rightarrow> st
              | Some d \<Rightarrow>
                 (let nodes = enabledNodes p;
                      old_i = index (n_data d);
                      new_i = clamp_index (length nodes) (target ev)
                  in if preventEnter s \<or> in_dead_zone ev \<or> length nodes \<le> old_i
                        \<or> new_i = old_i
                     then st
                     else
                       (let moved = (if swap then swap_nodes old_i new_i nodes
                                     else shift_nodes old_i new_i nodes);
                            lo = min old_i new_i;
                            hi = max old_i new_i;
                            nodes' = rederive_index lo hi moved
                        in st\<lparr>
                             app := setValues p (node_values nodes') (lastParent s) (app st),
                             parents := (parents st)(lastParent s \<mapsto> p\<lparr>enabledNodes := nodes'\<rparr>),
                             session := Some (s\<lparr>
                               targetIndex := new_i,
                               ascendingDirection := (old_i < new_i),
                               affectedNodes :=
                                 map node_el (take (Suc (hi - lo)) (drop lo nodes'))\<rparr>)\<rparr>)))))"

text \<open>Modelled from the spec: a sequence of over-events of one drag session.\<close>

definition sort_session :: "bool \<Rightarrow> ('v, 'a) engine \<Rightarrow> over_event list \<Rightarrow> ('v, 'a) engine" where
  "sort_session swap st evs = foldl (sort_step swap) st evs"

text \<open>
  The backing collection of the session's current parent, read through its \<open>getValues\<close>.
\<close>

definition backing_collection :: "('v, 'a) engine \<Rightarrow> 'v list option" where
  "backing_collection st =
     (case session st of
        None \<Rightarrow> None
      | Some s \<Rightarrow>
         (case parents st (lastParent s) of
            None \<Rightarrow> None
          | Some p \<Rightarrow> Some (getValues p (lastParent s) (app st))))"

text \<open>The \<open>enabledNodes\<close> of the session's current parent.\<close>

definition current_nodes :: "('v, 'a) engine \<Rightarrow> 'v node_record list option" where
  "current_nodes st =
     (case session st of
        None \<Rightarrow> None
      | Some s \<Rightarrow> map_option enabledNodes (parents st (lastParent s)))"

text \<open>
  What the accessors of the external store owe the engine (section 6): \<open>getValues\<close>
  returns what \<open>setValues\<close> wrote for the same parent.
\<close>

definition reads_back :: "('v, 'a) parent_data \<Rightarrow> nat \<Rightarrow> bool" where
  "reads_back p e = (\<forall>vs a. getValues p e (setValues p vs e a) = vs)"

section \<open>Transfer Resolver\<close>

text \<open>
  The \<open>accepts\<close> predicate of a parent's configuration, with the four arguments the
  source declares for it (lines 31 to 36). The predicates are kept beside the registry,
  by the element of the parent whose configuration holds them.
\<close>

type_synonym ('v, 'a) accepts =
  "('v, 'a) parent_record \<Rightarrow> ('v, 'a) parent_record \<Rightarrow> ('v, 'a) parent_record
     \<Rightarrow> 'v drag_state \<Rightarrow> bool"

text \<open>
  Modelled from the spec: the check of the Transfer Resolver (section 4.4, step 1),
  whose code is not among the sources. "Reject unless target parent's group equals
  current group, or an accepts predicate (given target/initial/last parent records and
  session) returns true": the current group is the group of the parent that holds the
  dragged node, \<open>lastParent\<close>.
\<close>

definition transfer_permitted ::
  "('v, 'a) accepts option \<Rightarrow> ('v, 'a) parent_record \<Rightarrow> ('v, 'a) parent_record
     \<Rightarrow> ('v, 'a) parent_record \<Rightarrow> 'v drag_state \<Rightarrow> bool" where
  "transfer_permitted acc tp ip lp s =
     (if cfg_group (config (p_data tp)) = cfg_group (config (p_data lp)) then True
      else (case acc of None \<Rightarrow> False | Some f \<Rightarrow> f tp ip lp s))"

text \<open>
  Modelled from the spec: the values of the dragged set, in the order they have in
  their parent ("as one contiguous block, preserving relative order").
\<close>

definition dragged_values :: "'v node_record list \<Rightarrow> nat list \<Rightarrow> 'v list" where
  "dragged_values nodes els = node_values (filter (\<lambda>r. node_el r \<in> set els) nodes)"

text \<open>
  Modelled from the spec: "remove dragged value(s) from lastParent" and "insert into
  target parent's collection at resolved index" (section 4.4, step 2). One occurrence
  of each dragged value leaves the collection; the block enters before position \<open>i\<close>.
\<close>

definition remove_values :: "'v list \<Rightarrow> 'v list \<Rightarrow> 'v list" where
  "remove_values dragged vs = foldr remove1 dragged vs"

definition insert_at :: "nat \<Rightarrow> 'v list \<Rightarrow> 'v list \<Rightarrow> 'v list" where
  "insert_at i block vs = take i vs @ block @ drop i vs"

text \<open>
  Modelled from the spec: the Transfer Resolver (section 4.4) for a target parent
  \<open>tgt\<close> and a resolved index \<open>i\<close>. \<open>acc\<close> gives the \<open>accepts\<close> predicate of each
  parent's configuration, where one is supplied. On acceptance the dragged values leave
  the collection of \<open>lastParent\<close> through its setter and enter the target's collection
  at the index through the target's setter, \<open>lastParent\<close> becomes the target and
  \<open>preventEnter\<close> is set. On rejection, and when a record is gone, nothing changes.
\<close>

definition transfer ::
  "(nat \<Rightarrow> ('v, 'a) accepts option) \<Rightarrow> ('v, 'a) engine \<Rightarrow> nat \<Rightarrow> nat \<Rightarrow> ('v, 'a) engine" where
  "transfer acc st tgt i =
     (case session st of
        None \<Rightarrow> st
      | Some s \<Rightarrow>
         if tgt = lastParent s then st
         else
           (case (parents st tgt, parents st (initialParent s), parents st (lastParent s)) of
              (Some td, Some idt, Some ld) \<Rightarrow>
                if transfer_permitted (acc tgt)
                     \<lparr>parent_el = tgt, p_data = td\<rparr>
                     \<lparr>parent_el = initialParent s, p_data = idt\<rparr>
                     \<lparr>parent_el = lastParent s, p_data = ld\<rparr> s
                then
                  (let block = dragged_values (enabledNodes ld) (draggedNodes s);
                       a1 = setValues ld
                              (remove_values block (getValues ld (lastParent s) (app st)))
                              (lastParent s) (app st);
                       a2 = setValues td (insert_at i block (getValues td tgt a1)) tgt a1
                   in st\<lparr>app := a2,
                         session := Some (s\<lparr>lastParent := tgt, preventEnter := True\<rparr>)\<rparr>)
                else st
            | _ \<Rightarrow> st))"

section \<open>Registration\<close>

text \<open>
  The argument of registration, as the source declares it (\<open>DragAndDrop\<close>, lines 4 to
  21): the parent element, the two accessors, and an optional partial configuration. A
  caller can leave an accessor out, so each is an option here. Of the partial
  configuration the record keeps the options the engine's records above keep.
\<close>

record partial_config =
  pc_group :: "string option"
  pc_threshold :: "threshold option"

record ('v, 'a) drag_and_drop =
  dnd_parent :: nat
  dnd_getValues :: "(nat \<Rightarrow> 'a \<Rightarrow> 'v list) option"
  dnd_setValues :: "('v list \<Rightarrow> nat \<Rightarrow> 'a \<Rightarrow> 'a) option"
  dnd_config :: "partial_config option"

text \<open>
  Modelled from the spec: the two configuration errors of section 7, "missing required
  hook" and "out-of-range threshold", each with the name of the hook or of the
  threshold's axis.
\<close>

datatype config_error = MissingHook string | ThresholdOutOfRange string

text \<open>
  Modelled from the spec: the configuration a parent is registered with, the caller's
  options over the engine's defaults \<open>dflt\<close>; the code of registration is not
  among the sources.
\<close>

definition merge_config :: "parent_config \<Rightarrow> partial_config option \<Rightarrow> parent_config" where
  "merge_config dflt pc =
     (case pc of
        None \<Rightarrow> dflt
      | Some c \<Rightarrow>
          \<lparr>cfg_group = (case pc_group c of None \<Rightarrow> cfg_group dflt | Some g \<Rightarrow> Some g),
           cfg_threshold = (case pc_threshold c of None \<Rightarrow> cfg_threshold dflt | Some t \<Rightarrow> t)\<rparr>)"

text \<open>Modelled from the spec: a threshold is a fraction in [0, 1] (section 6).\<close>

definition is_fraction :: "real \<Rightarrow> bool" where
  "is_fraction x = (0 \<le> x \<and> x \<le> 1)"

text \<open>
  Modelled from the spec: \<open>registerParent\<close> (sections 6 and 7), whose code is not among
  the sources. "Configuration errors (missing required hook, out-of-range threshold)
  must fail registration loudly": the required hooks are the two accessors, which the
  source declares without \<open>?\<close>; every other hook of the configuration is optional at
  registration (\<open>Partial<ParentConfig>\<close>). A registered parent starts with no enabled
  nodes.
\<close>

definition registerParent ::
  "parent_config \<Rightarrow> ('v, 'a) drag_and_drop \<Rightarrow> config_error + ('v, 'a) parent_record" where
  "registerParent dflt d =
     (case dnd_getValues d of
        None \<Rightarrow> Inl (MissingHook ''getValues'')
      | Some g \<Rightarrow>
         (case dnd_setValues d of
            None \<Rightarrow> Inl (MissingHook ''setValues'')
          | Some sv \<Rightarrow>
             (let cfg = merge_config dflt (dnd_config d)
              in if \<not> is_fraction (horizontal (cfg_threshold cfg))
                 then Inl (ThresholdOutOfRange ''horizontal'')
                 else if \<not> is_fraction (vertical (cfg_threshold cfg))
                 then Inl (ThresholdOutOfRange ''vertical'')
                 else Inr \<lparr>parent_el = dnd_parent d,
                           p_data = \<lparr>getValues = g, setValues = sv, config = cfg,
                                     enabledNodes = [], parent_abortControllers = []\<rparr>\<rparr>)))"

text \<open>
  Following the spec's words (section 7): a configuration is well formed when no
  required hook is missing and no threshold is out of range.
\<close>

definition well_formed :: "parent_config \<Rightarrow> ('v, 'a) drag_and_drop \<Rightarrow> bool" where
  "well_formed dflt d =
     (dnd_getValues d \<noteq> None \<and> dnd_setValues d \<noteq> None
      \<and> is_fraction (horizontal (cfg_threshold (merge_config dflt (dnd_config d))))
      \<and> is_fraction (vertical (cfg_threshold (merge_config dflt (dnd_config d)))))"

section \<open>A small instance\<close>

text \<open>
  Two parents over an application state that maps a parent's element to its collection:
  parent 1 (group \<open>g\<close>) holds the nodes of \<open>A\<close>, \<open>B\<close>, \<open>C\<close>, \<open>D\<close> and parent 2 (group \<open>h\<close>)
  holds the node of \<open>E\<close>. A session drags the first node of parent 1.
\<close>

definition demo_node :: "nat \<Rightarrow> nat \<Rightarrow> string \<Rightarrow> string node_record" where
  "demo_node e i v =
     \<lparr>node_el = e,
      n_data = \<lparr>index = i, node_value = v, privateClasses = [], node_abortControllers = []\<rparr>\<rparr>"

definition demo_parent ::
  "string \<Rightarrow> string node_record list \<Rightarrow> (string, nat \<Rightarrow> string list) parent_data" where
  "demo_parent g nodes =
     \<lparr>getValues = (\<lambda>e a. a e),
      setValues = (\<lambda>vs e a. a(e := vs)),
      config = \<lparr>cfg_group = Some g, cfg_threshold = \<lparr>horizontal = 0, vertical = 0\<rparr>\<rparr>,
      enabledNodes = nodes,
      parent_abortControllers = []\<rparr>"

definition demo_p1 :: "(string, nat \<Rightarrow> string list) parent_data" where
  "demo_p1 = demo_parent ''g''
     [demo_node 10 0 ''A'', demo_node 11 1 ''B'', demo_node 12 2 ''C'', demo_node 13 3 ''D'']"

definition demo_p2 :: "(string, nat \<Rightarrow> string list) parent_data" where
  "demo_p2 = demo_parent ''h'' [demo_node 20 0 ''E'']"

definition demo_session :: "string drag_state" where
  "demo_session =
     \<lparr>activeNode = None, affectedNodes = [], ascendingDirection = False,
      clonedDraggedEls = [], draggedNode = 10, draggedNodes = [10],
      incomingDirection = None, initialParent = 1, lastParent = 1, lastValue = ''A'',
      originalZIndex = None, preventEnter = False, swappedNodeValue = None,
      targetIndex = 0\<rparr>"

definition demo_engine :: "(string, nat \<Rightarrow> string list) engine" where
  "demo_engine =
     \<lparr>app = (\<lambda>e. if e = 1 then [''A'', ''B'', ''C'', ''D''] else if e = 2 then [''E''] else []),
      parents = [1 \<mapsto> demo_p1, 2 \<mapsto> demo_p2],
      session = Some demo_session\<rparr>"

text \<open>An \<open>accepts\<close> predicate that admits every transfer, supplied by parent 2 only.\<close>

definition demo_accepts :: "nat \<Rightarrow> (string, nat \<Rightarrow> string list) accepts option" where
  "demo_accepts e = (if e = 2 then Some (\<lambda>tp ip lp s. True) else None)"

text \<open>A registration whose horizontal threshold is out of range.\<close>

definition demo_defaults :: parent_config where
  "demo_defaults = \<lparr>cfg_group = None, cfg_threshold = \<lparr>horizontal = 0, vertical = 0\<rparr>\<rparr>"

definition demo_registration ::
  "real \<Rightarrow> (string, nat \<Rightarrow> string list) drag_and_drop" where
  "demo_registration h =
     \<lparr>dnd_parent = 1,
      dnd_getValues = Some (\<lambda>e a. a e),
      dnd_setValues = Some (\<lambda>vs e a. a(e := vs)),
      dnd_config = Some \<lparr>pc_group = Some ''g'',
                         pc_threshold = Some \<lparr>horizontal = h, vertical = 1 / 2\<rparr>\<rparr>\<rparr>"

section \<open>Reading the declarations: evaluation lemmas\<close>

lemma length_types_ts: "length types_ts = 27"
  by (simp add: types_ts_def)

lemma interface_names:
  "i_name DragAndDrop = ''DragAndDrop''" "i_name ParentConfig = ''ParentConfig''"
  "i_name ParentData = ''ParentData''" "i_name NodeData = ''NodeData''"
  "i_name NodeEventData = ''NodeEventData''" "i_name NodeDragEventData = ''NodeDragEventData''"
  "i_name ParentDragEventData = ''ParentDragEventData''"
  "i_name NodeTouchEventData = ''NodeTouchEventData''"
  "i_name ParentEventData = ''ParentEventData''" "i_name ParentTargetData = ''ParentTargetData''"
  "i_name NodeTargetData = ''NodeTargetData''"
  "i_name NodeRecord = ''NodeRecord''" "i_name ParentRecord = ''ParentRecord''"
  "i_name NodeFromPoint = ''NodeFromPoint''" "i_name ParentFromPoint = ''ParentFromPoint''"
  "i_name Node = ''Node''" "i_name TouchOverNodeEvent = ''TouchOverNodeEvent''"
  "i_name TouchOverParentEvent = ''TouchOverParentEvent''"
  "i_name DNDPluginData = ''DNDPluginData''" "i_name PluginData = ''PluginData''"
  "i_name DragAndDropData = ''DragAndDropData''" "i_name SetupNodeData = ''SetupNodeData''"
  "i_name TearDownNodeData = ''TearDownNodeData''" "i_name TouchState = ''TouchState''"
  "i_name DragState = ''DragState''" "i_name DragStateProps = ''DragStateProps''"
  "i_name TouchStateProps = ''TouchStateProps''"
  by (simp_all add: DragAndDrop_def ParentConfig_def ParentData_def NodeData_def
      NodeEventData_def NodeDragEventData_def ParentDragEventData_def NodeTouchEventData_def
      ParentEventData_def ParentTargetData_def NodeTargetData_def NodeRecord_def
      ParentRecord_def NodeFromPoint_def ParentFromPoint_def Node_def TouchOverNodeEvent_def
      TouchOverParentEvent_def DNDPluginData_def PluginData_def DragAndDropData_def
      SetupNodeData_def TearDownNodeData_def TouchState_def DragState_def DragStateProps_def
      TouchStateProps_def)

lemma lookup_DragState: "lookup_interface ''DragState'' = Some DragState"
  by (simp add: lookup_interface_def types_ts_def interface_names)

lemma lookup_DragStateProps: "lookup_interface ''DragStateProps'' = Some DragStateProps"
  by (simp add: lookup_interface_def types_ts_def interface_names)

lemma members_upto_no_extends: "i_extends i = [] \<Longrightarrow> members_upto k i = i_members i"
  by (cases k) simp_all

lemma members_of_no_extends: "i_extends i = [] \<Longrightarrow> members_of i = i_members i"
  by (simp add: members_of_def members_upto_no_extends)

text \<open>\<open>DragState\<close> declares again each of the four members of \<open>DragStateProps\<close>.\<close>

lemma members_upto_DragState: "members_upto (Suc k) DragState = i_members DragState"
proof -
  have e: "i_extends DragState = [''DragStateProps'']"
    by (simp add: DragState_def)
  have p: "members_upto k DragStateProps = i_members DragStateProps"
    by (rule members_upto_no_extends) (simp add: DragStateProps_def)
  have f: "filter (\<lambda>m. fst m \<notin> set (map fst (i_members DragState)))
             (i_members DragStateProps) = []"
    by (simp add: DragState_def DragStateProps_def required_def)
  show ?thesis
    by (subst members_upto.simps(2))
      (simp only: e list.map concat.simps append_Nil2 lookup_DragStateProps option.case p f
        append_Nil)
qed

text \<open>\<open>TouchState\<close> declares none of the members of \<open>DragState\<close> again.\<close>

lemma members_upto_TouchState:
  "members_upto (Suc (Suc k)) TouchState = i_members DragState @ i_members TouchState"
proof -
  have e: "i_extends TouchState = [''DragState'']"
    by (simp add: TouchState_def)
  have f: "filter (\<lambda>m. fst m \<notin> set (map fst (i_members TouchState))) (i_members DragState)
             = i_members DragState"
    by (simp add: DragState_def TouchState_def required_def)
  show ?thesis
    by (subst members_upto.simps(2))
      (simp only: e list.map concat.simps append_Nil2 lookup_DragState option.case
        members_upto_DragState f)
qed

lemma members_of_DragState: "members_of DragState = i_members DragState"
  by (simp add: members_of_def length_types_ts eval_nat_numeral members_upto_DragState
      del: members_upto.simps)

lemma members_of_TouchState:
  "members_of TouchState = i_members DragState @ i_members TouchState"
  by (simp add: members_of_def length_types_ts eval_nat_numeral members_upto_TouchState
      del: members_upto.simps)

lemma members_of_ParentConfig: "members_of ParentConfig = i_members ParentConfig"
  by (rule members_of_no_extends) (simp add: ParentConfig_def)

lemma members_of_ParentData: "members_of ParentData = i_members ParentData"
  by (rule members_of_no_extends) (simp add: ParentData_def)

lemma members_of_NodeData: "members_of NodeData = i_members NodeData"
  by (rule members_of_no_extends) (simp add: NodeData_def)

lemma members_of_NodeRecord: "members_of NodeRecord = i_members NodeRecord"
  by (rule members_of_no_extends) (simp add: NodeRecord_def)

lemma members_of_ParentRecord: "members_of ParentRecord = i_members ParentRecord"
  by (rule members_of_no_extends) (simp add: ParentRecord_def)

lemma members_of_SetupNodeData: "members_of SetupNodeData = i_members SetupNodeData"
  by (rule members_of_no_extends) (simp add: SetupNodeData_def)

lemma members_of_TearDownNodeData: "members_of TearDownNodeData = i_members TearDownNodeData"
  by (rule members_of_no_extends) (simp add: TearDownNodeData_def)

lemma members_of_DragAndDrop: "members_of DragAndDrop = i_members DragAndDrop"
  by (rule members_of_no_extends) (simp add: DragAndDrop_def)

lemma member_names_ParentConfig:
  "member_names ParentConfig = [''accepts'', ''disabled'', ''dragHandle'', ''draggable'',
     ''draggingClass'', ''dropZoneClass'', ''dropZone'', ''group'', ''handleEnd'',
     ''handleDragstart'', ''handleTouchstart'', ''handleDragoverParent'',
     ''handleDragoverNode'', ''handleTouchmove'', ''handleTouchOverNode'',
     ''handleTouchOverParent'', ''longTouch'', ''longTouchClass'', ''longTouchTimeout'',
     ''name'', ''performSort'', ''performTransfer'', ''plugins'', ''root'', ''setupNode'',
     ''sortable'', ''tearDownNode'', ''threshold'', ''touchDraggingClass'',
     ''touchDropZoneClass'']"
  unfolding member_names_def members_of_ParentConfig
  by (simp add: ParentConfig_def required_def optional_def)

lemma member_names_DragState:
  "member_names DragState = [''activeNode'', ''affectedNodes'', ''ascendingDirection'',
     ''clonedDraggedEls'', ''draggedNode'', ''draggedNodes'', ''incomingDirection'',
     ''initialParent'', ''lastParent'', ''lastValue'', ''originalZIndex'', ''preventEnter'',
     ''swappedNodeValue'', ''targetIndex'']"
  unfolding member_names_def members_of_DragState
  by (simp add: DragState_def required_def)

lemma finite_choice_names_ParentConfig:
  "finite_choice_names ParentConfig = [''disabled'', ''dropZone'', ''longTouch'', ''sortable'']"
  unfolding finite_choice_names_def members_of_ParentConfig
  by (simp add: ParentConfig_def required_def optional_def)

section \<open>The claims settled on the declarations\<close>

text \<open>
  C2, as the declarations answer it. The claim asks for an explicit flag in the
  parent's configuration that decides between swap and shift. \<open>ParentConfig\<close> declares
  no such member: its only members with finitely many values are the four flags
  \<open>disabled\<close>, \<open>dropZone\<close>, \<open>longTouch\<close> and \<open>sortable\<close>, which the source documents
  for other purposes.
\<close>

theorem ParentConfig_declares_no_policy_choice:
  "undocumented_choices ParentConfig = []"
  unfolding undocumented_choices_def finite_choice_names_ParentConfig
  by (simp add: documented_flags_def)

text \<open>
  C2, amended: the parent's configuration declares no swap-or-shift flag. Its flags are
  \<open>disabled\<close>, \<open>dropZone\<close>, \<open>longTouch\<close> and \<open>sortable\<close>; what it declares for sorting
  is the optional flag \<open>sortable\<close>, the required \<open>threshold\<close> of two numbers and the
  required strategy \<open>performSort\<close>, which receives the session state and the event
  data; any further key is admitted with type \<open>any\<close> by the index signature.
\<close>

theorem ParentConfig_sort_options:
  "finite_choice_names ParentConfig = [''disabled'', ''dropZone'', ''longTouch'', ''sortable'']
   \<and> find_member ParentConfig ''sortable'' = Some (True, TBoolean)
   \<and> find_member ParentConfig ''threshold''
       = Some (False, TObj [(''horizontal'', False, TNumber), (''vertical'', False, TNumber)])
   \<and> find_member ParentConfig ''performSort''
       = Some (False,
           TFun [(''state'', TUnion [TRef ''DragState'', TRef ''TouchState'']),
                 (''data'', TUnion [TRef ''NodeDragEventData'', TRef ''NodeTouchEventData''])]
             TVoid)
   \<and> i_index ParentConfig = Some TAny"
proof -
  have a: "find_member ParentConfig ''sortable'' = Some (True, TBoolean)"
    unfolding find_member_def members_of_ParentConfig
    by (simp add: ParentConfig_def required_def optional_def)
  have b: "find_member ParentConfig ''threshold''
       = Some (False, TObj [(''horizontal'', False, TNumber), (''vertical'', False, TNumber)])"
    unfolding find_member_def members_of_ParentConfig
    by (simp add: ParentConfig_def required_def optional_def)
  have c: "find_member ParentConfig ''performSort''
       = Some (False,
           TFun [(''state'', TUnion [TRef ''DragState'', TRef ''TouchState'']),
                 (''data'', TUnion [TRef ''NodeDragEventData'', TRef ''NodeTouchEventData''])]
             TVoid)"
    unfolding find_member_def members_of_ParentConfig
    by (simp add: ParentConfig_def required_def optional_def)
  have d: "i_index ParentConfig = Some TAny"
    by (simp add: ParentConfig_def)
  show ?thesis
    using finite_choice_names_ParentConfig a b c d by simp
qed

text \<open>
  C3: in a drag session, and so in a touch session, \<open>incomingDirection\<close> is a required
  member whose type has exactly five values: the four directions \<open>above\<close>, \<open>below\<close>,
  \<open>left\<close>, \<open>right\<close>, and \<open>undefined\<close>, which is the value for no direction yet (the
  spec's \<open>none\<close>). So the field of every session \<open>s\<close> is one of five distinct values.
\<close>

theorem incomingDirection_five_values:
  "find_member DragState ''incomingDirection''
     = Some (False,
         TUnion [TLit ''above'', TLit ''below'', TLit ''left'', TLit ''right'', TUndefined])
   \<and> find_member TouchState ''incomingDirection'' = find_member DragState ''incomingDirection''
   \<and> values_of
        (TUnion [TLit ''above'', TLit ''below'', TLit ''left'', TLit ''right'', TUndefined])
     = Some [VString ''above'', VString ''below'', VString ''left'', VString ''right'',
         VUndefined]
   \<and> incomingDirection s \<in> {Some Above, Some Below, Some Left, Some Right, None}
   \<and> distinct [Some Above, Some Below, Some Left, Some Right, None]"
proof -
  have a: "find_member DragState ''incomingDirection''
     = Some (False,
         TUnion [TLit ''above'', TLit ''below'', TLit ''left'', TLit ''right'', TUndefined])"
    unfolding find_member_def members_of_DragState
    by (simp add: DragState_def required_def)
  have b: "find_member TouchState ''incomingDirection''
     = Some (False,
         TUnion [TLit ''above'', TLit ''below'', TLit ''left'', TLit ''right'', TUndefined])"
    unfolding find_member_def members_of_TouchState
    by (simp add: DragState_def required_def)
  have c: "values_of
        (TUnion [TLit ''above'', TLit ''below'', TLit ''left'', TLit ''right'', TUndefined])
     = Some [VString ''above'', VString ''below'', VString ''left'', VString ''right'',
         VUndefined]"
    by simp
  have d: "incomingDirection s \<in> {Some Above, Some Below, Some Left, Some Right, None}"
  proof (cases "incomingDirection s")
    case None
    then show ?thesis
      by simp
  next
    case (Some dir)
    then show ?thesis
      by (cases dir) simp_all
  qed
  show ?thesis
    using a b c d by simp
qed

text \<open>
  C5, as stated, fails: the configuration does not enumerate exactly the options the
  spec lists. \<open>handleEnd\<close> is a member of \<open>ParentConfig\<close> and is not in the spec's list.
\<close>

theorem ParentConfig_option_outside_spec_list:
  "''handleEnd'' \<in> set (member_names ParentConfig)
   \<and> ''handleEnd'' \<notin> set (map fst spec_config_options)"
  unfolding member_names_ParentConfig
  by (simp add: spec_config_options_def)

text \<open>
  C5, amended: the parent configuration declares every option the spec lists, each of
  the stated kind (a fraction being a \<open>number\<close>), and besides them exactly the eight
  event handlers \<open>handleEnd\<close>, \<open>handleDragstart\<close>, \<open>handleTouchstart\<close>,
  \<open>handleDragoverParent\<close>, \<open>handleDragoverNode\<close>, \<open>handleTouchmove\<close>,
  \<open>handleTouchOverNode\<close> and \<open>handleTouchOverParent\<close>; it admits any further key, and
  registration takes it as an optional \<open>Partial<ParentConfig>\<close>.
\<close>

theorem ParentConfig_options:
  "list_all option_conforms spec_config_options
   \<and> filter (\<lambda>n. n \<notin> set (map fst spec_config_options)) (member_names ParentConfig)
     = [''handleEnd'', ''handleDragstart'', ''handleTouchstart'', ''handleDragoverParent'',
        ''handleDragoverNode'', ''handleTouchmove'', ''handleTouchOverNode'',
        ''handleTouchOverParent'']
   \<and> i_index ParentConfig = Some TAny
   \<and> find_member DragAndDrop ''config'' = Some (True, TPartial (TRef ''ParentConfig''))"
proof -
  have a: "list_all option_conforms spec_config_options"
    unfolding spec_config_options_def option_conforms_def find_member_def
      members_of_ParentConfig
    by (simp add: ParentConfig_def required_def optional_def result_type_def is_array_def
        alias_of_def)
  have b: "filter (\<lambda>n. n \<notin> set (map fst spec_config_options)) (member_names ParentConfig)
     = [''handleEnd'', ''handleDragstart'', ''handleTouchstart'', ''handleDragoverParent'',
        ''handleDragoverNode'', ''handleTouchmove'', ''handleTouchOverNode'',
        ''handleTouchOverParent'']"
    unfolding member_names_ParentConfig
    by (simp add: spec_config_options_def)
  have c: "i_index ParentConfig = Some TAny"
    by (simp add: ParentConfig_def)
  have d: "find_member DragAndDrop ''config'' = Some (True, TPartial (TRef ''ParentConfig''))"
    unfolding find_member_def members_of_DragAndDrop
    by (simp add: DragAndDrop_def required_def optional_def)
  show ?thesis
    using a b c d by simp
qed

text \<open>
  C7: a Parent record is the pair of \<open>el\<close> (the element) and \<open>data\<close>, and its data holds
  exactly \<open>getValues\<close>, \<open>setValues\<close>, \<open>config\<close>, the array \<open>enabledNodes\<close> of Node records
  and the abort controllers (the handles of cancelable operations); a Node record is
  the pair of \<open>el\<close> and \<open>data\<close>, and its data holds exactly \<open>index\<close>, \<open>value\<close>,
  \<open>privateClasses\<close> and the abort controllers. None of the four admits other keys.
\<close>

theorem parent_and_node_records:
  "members_of ParentRecord
     = [required ''el'' (TRef ''HTMLElement''), required ''data'' (TRef ''ParentData'')]
   \<and> member_names ParentData
     = [''getValues'', ''setValues'', ''config'', ''enabledNodes'', ''abortControllers'']
   \<and> find_member ParentData ''config'' = Some (False, TRef ''ParentConfig'')
   \<and> find_member ParentData ''enabledNodes'' = Some (False, TArray (TRef ''NodeRecord''))
   \<and> find_member ParentData ''abortControllers''
     = Some (False, TRecordOf TString (TRef ''AbortController''))
   \<and> members_of NodeRecord
     = [required ''el'' (TRef ''Node''), required ''data'' (TRef ''NodeData'')]
   \<and> members_of NodeData
     = [required ''index'' TNumber, required ''value'' TAny,
        required ''privateClasses'' (TArray TString),
        required ''abortControllers'' (TRecordOf TString (TRef ''AbortController''))]
   \<and> map i_index [ParentRecord, ParentData, NodeRecord, NodeData] = [None, None, None, None]"
proof -
  have a: "members_of ParentRecord
     = [required ''el'' (TRef ''HTMLElement''), required ''data'' (TRef ''ParentData'')]"
    unfolding members_of_ParentRecord by (simp add: ParentRecord_def)
  have b: "member_names ParentData
     = [''getValues'', ''setValues'', ''config'', ''enabledNodes'', ''abortControllers'']"
    unfolding member_names_def members_of_ParentData
    by (simp add: ParentData_def required_def)
  have c: "find_member ParentData ''config'' = Some (False, TRef ''ParentConfig'')"
    unfolding find_member_def members_of_ParentData
    by (simp add: ParentData_def required_def)
  have d: "find_member ParentData ''enabledNodes'' = Some (False, TArray (TRef ''NodeRecord''))"
    unfolding find_member_def members_of_ParentData
    by (simp add: ParentData_def required_def)
  have e: "find_member ParentData ''abortControllers''
     = Some (False, TRecordOf TString (TRef ''AbortController''))"
    unfolding find_member_def members_of_ParentData
    by (simp add: ParentData_def required_def)
  have f: "members_of NodeRecord
     = [required ''el'' (TRef ''Node''), required ''data'' (TRef ''NodeData'')]"
    unfolding members_of_NodeRecord by (simp add: NodeRecord_def)
  have g: "members_of NodeData
     = [required ''index'' TNumber, required ''value'' TAny,
        required ''privateClasses'' (TArray TString),
        required ''abortControllers'' (TRecordOf TString (TRef ''AbortController''))]"
    unfolding members_of_NodeData by (simp add: NodeData_def)
  have h: "map i_index [ParentRecord, ParentData, NodeRecord, NodeData]
     = [None, None, None, None]"
    by (simp add: ParentRecord_def ParentData_def NodeRecord_def NodeData_def)
  show ?thesis
    using a b c d e f g h by simp
qed

text \<open>
  C8: the touch session state has every member of the drag session state, unchanged,
  and adds exactly nine: \<open>touchMoving\<close>, \<open>touchStartLeft\<close>, \<open>touchStartTop\<close>,
  \<open>touchedNode\<close>, the long-press timer handle \<open>longTouchTimeout\<close>, \<open>scrollParent\<close> and
  its saved overflow \<open>scrollParentOverflow\<close>, the flag \<open>longTouch\<close>, and the saved
  display \<open>touchedNodeDisplay\<close>. No name occurs twice, so the nine are new.
\<close>

theorem TouchState_extends_DragState:
  "members_of TouchState = members_of DragState @
     [required ''touchMoving'' TBoolean,
      required ''touchStartLeft'' TNumber,
      required ''touchStartTop'' TNumber,
      required ''touchedNode'' (TRef ''HTMLElement''),
      required ''longTouchTimeout'' (TUnion [TReturnTypeOf ''setTimeout'', TUndefined]),
      required ''scrollParent'' (TUnion [TRef ''HTMLElement'', TUndefined]),
      required ''scrollParentOverflow'' (TUnion [TString, TUndefined]),
      required ''longTouch'' TBoolean,
      required ''touchedNodeDisplay'' (TUnion [TString, TUndefined])]
   \<and> distinct (member_names TouchState)
   \<and> length (members_of DragState) = 14"
proof -
  have a: "members_of TouchState = members_of DragState @
     [required ''touchMoving'' TBoolean,
      required ''touchStartLeft'' TNumber,
      required ''touchStartTop'' TNumber,
      required ''touchedNode'' (TRef ''HTMLElement''),
      required ''longTouchTimeout'' (TUnion [TReturnTypeOf ''setTimeout'', TUndefined]),
      required ''scrollParent'' (TUnion [TRef ''HTMLElement'', TUndefined]),
      required ''scrollParentOverflow'' (TUnion [TString, TUndefined]),
      required ''longTouch'' TBoolean,
      required ''touchedNodeDisplay'' (TUnion [TString, TUndefined])]"
    unfolding members_of_TouchState members_of_DragState
    by (simp add: TouchState_def)
  have b: "distinct (member_names TouchState)"
    unfolding member_names_def members_of_TouchState
    by (simp add: DragState_def TouchState_def required_def)
  have c: "length (members_of DragState) = 14"
    unfolding members_of_DragState by (simp add: DragState_def)
  show ?thesis
    using a b c by simp
qed

text \<open>
  C9: the drag session state, and with it the touch session state, has a required
  member \<open>lastValue\<close> of type \<open>any\<close>; it is the one member of \<open>DragState\<close> that the
  spec's list of session fields does not mention.
\<close>

theorem DragState_lastValue:
  "find_member DragState ''lastValue'' = Some (False, TAny)
   \<and> find_member TouchState ''lastValue'' = Some (False, TAny)
   \<and> filter (\<lambda>n. n \<notin> set spec_session_fields) (member_names DragState) = [''lastValue'']"
proof -
  have a: "find_member DragState ''lastValue'' = Some (False, TAny)"
    unfolding find_member_def members_of_DragState
    by (simp add: DragState_def required_def)
  have b: "find_member TouchState ''lastValue'' = Some (False, TAny)"
    unfolding find_member_def members_of_TouchState
    by (simp add: DragState_def required_def)
  have c: "filter (\<lambda>n. n \<notin> set spec_session_fields) (member_names DragState)
     = [''lastValue'']"
    unfolding member_names_DragState
    by (simp add: spec_session_fields_def)
  show ?thesis
    using a b c by simp
qed

text \<open>
  C10: the payload of the teardown hook declares \<open>nodeData\<close> optional, so the hook may be
  called without node data; the payload of the setup hook declares it required. Both
  hooks take their payload as the one argument and return nothing.
\<close>

theorem nodeData_optional_on_teardown_only:
  "find_member TearDownNodeData ''nodeData'' = Some (True, TRef ''NodeData'')
   \<and> find_member SetupNodeData ''nodeData'' = Some (False, TRef ''NodeData'')
   \<and> alias_of ''TearDownNode'' = Some (TFun [(''data'', TRef ''TearDownNodeData'')] TVoid)
   \<and> alias_of ''SetupNode'' = Some (TFun [(''data'', TRef ''SetupNodeData'')] TVoid)"
proof -
  have a: "find_member TearDownNodeData ''nodeData'' = Some (True, TRef ''NodeData'')"
    unfolding find_member_def members_of_TearDownNodeData
    by (simp add: TearDownNodeData_def required_def optional_def)
  have b: "find_member SetupNodeData ''nodeData'' = Some (False, TRef ''NodeData'')"
    unfolding find_member_def members_of_SetupNodeData
    by (simp add: SetupNodeData_def required_def)
  show ?thesis
    using a b by (simp add: alias_of_def)
qed

section \<open>Sorting keeps the values\<close>

lemma node_values_rederive_index: "node_values (rederive_index lo hi nodes) = node_values nodes"
proof -
  have "map (\<lambda>x. node_value (n_data (case x of (k, r) \<Rightarrow>
            if lo \<le> k \<and> k \<le> hi then r\<lparr>n_data := (n_data r)\<lparr>index := k\<rparr>\<rparr> else r)))
          (enumerate n nodes)
        = map (\<lambda>r. node_value (n_data r)) nodes" for n
    by (induction nodes arbitrary: n) auto
  then show ?thesis
    by (simp add: node_values_def rederive_index_def comp_def)
qed

lemma mset_swap_nodes:
  "i < length xs \<Longrightarrow> j < length xs \<Longrightarrow> mset (swap_nodes i j xs) = mset xs"
  unfolding swap_nodes_def by (rule mset_swap)

lemma mset_shift_nodes:
  assumes "i < length xs"
  shows "mset (shift_nodes i j xs) = mset xs"
proof -
  let ?ys = "take i xs @ drop (Suc i) xs"
  have "mset (take j ?ys @ [xs ! i] @ drop j ?ys) = mset (take j ?ys @ drop j ?ys) + {#xs ! i#}"
    by simp
  also have "\<dots> = mset ?ys + {#xs ! i#}"
    by (simp only: append_take_drop_id)
  also have "\<dots> = mset (take i xs @ xs ! i # drop (Suc i) xs)"
    by simp
  also have "\<dots> = mset xs"
    using assms by (simp only: id_take_nth_drop [symmetric])
  finally show ?thesis
    by (simp add: shift_nodes_def Let_def)
qed

lemma mset_node_values: "mset xs = mset ys \<Longrightarrow> mset (node_values xs) = mset (node_values ys)"
  unfolding node_values_def by (metis mset_map)

lemma clamp_index_less: "0 < len \<Longrightarrow> clamp_index len t < len"
  unfolding clamp_index_def by arith

text \<open>An over-event either changes nothing or commits a reordering.\<close>

lemma sort_step_cases:
  assumes s: "session st = Some s"
    and p: "parents st (lastParent s) = Some p"
  shows "sort_step swap st ev = st
    \<or> (\<exists>old_i new_i moved nodes'.
          old_i < length (enabledNodes p) \<and> new_i < length (enabledNodes p)
          \<and> moved = (if swap then swap_nodes old_i new_i (enabledNodes p)
                      else shift_nodes old_i new_i (enabledNodes p))
          \<and> nodes' = rederive_index (min old_i new_i) (max old_i new_i) moved
          \<and> app (sort_step swap st ev)
              = setValues p (node_values nodes') (lastParent s) (app st)
          \<and> parents (sort_step swap st ev)
              = (parents st)(lastParent s \<mapsto> p\<lparr>enabledNodes := nodes'\<rparr>)
          \<and> map_option lastParent (session (sort_step swap st ev)) = Some (lastParent s))"
proof (cases "find (\<lambda>r. node_el r = draggedNode s) (enabledNodes p)")
  case None
  then show ?thesis
    by (simp add: sort_step_def s p)
next
  case (Some d)
  let ?old = "index (n_data d)"
  let ?new = "clamp_index (length (enabledNodes p)) (target ev)"
  show ?thesis
  proof (cases "preventEnter s \<or> in_dead_zone ev \<or> length (enabledNodes p) \<le> ?old
                  \<or> ?new = ?old")
    case True
    then have "sort_step swap st ev = st"
      by (simp add: sort_step_def s p Some Let_def)
    then show ?thesis
      by simp
  next
    case False
    then have old_lt: "?old < length (enabledNodes p)"
      by simp
    then have "0 < length (enabledNodes p)"
      by arith
    then have new_lt: "?new < length (enabledNodes p)"
      by (rule clamp_index_less)
    have "app (sort_step swap st ev)
          = setValues p (node_values (rederive_index (min ?old ?new) (max ?old ?new)
              (if swap then swap_nodes ?old ?new (enabledNodes p)
               else shift_nodes ?old ?new (enabledNodes p)))) (lastParent s) (app st)"
      using False by (simp add: sort_step_def s p Some Let_def)
    moreover have "parents (sort_step swap st ev)
          = (parents st)(lastParent s \<mapsto> p\<lparr>enabledNodes :=
              rederive_index (min ?old ?new) (max ?old ?new)
              (if swap then swap_nodes ?old ?new (enabledNodes p)
               else shift_nodes ?old ?new (enabledNodes p))\<rparr>)"
      using False by (simp add: sort_step_def s p Some Let_def)
    moreover have "map_option lastParent (session (sort_step swap st ev)) = Some (lastParent s)"
      using False by (simp add: sort_step_def s p Some Let_def)
    ultimately show ?thesis
      using old_lt new_lt by blast
  qed
qed

text \<open>
  One over-event keeps the session on its parent, the parent's accessors, the match
  between the backing collection and \<open>enabledNodes\<close>, and the values as a multiset.
\<close>

lemma sort_step_keeps:
  assumes s: "session st = Some s"
    and p: "parents st (lastParent s) = Some p"
    and rb: "reads_back p (lastParent s)"
    and m: "getValues p (lastParent s) (app st) = node_values (enabledNodes p)"
  shows "\<exists>s' p'. session (sort_step swap st ev) = Some s'
           \<and> lastParent s' = lastParent s
           \<and> parents (sort_step swap st ev) (lastParent s) = Some p'
           \<and> getValues p' = getValues p \<and> setValues p' = setValues p
           \<and> getValues p' (lastParent s) (app (sort_step swap st ev))
               = node_values (enabledNodes p')
           \<and> mset (node_values (enabledNodes p')) = mset (node_values (enabledNodes p))"
  using sort_step_cases [OF s p, of swap ev]
proof (elim disjE exE conjE)
  assume same: "sort_step swap st ev = st"
  show ?thesis
    unfolding same using s p m by (intro exI [of _ s] exI [of _ p]) simp
next
  fix old_i new_i moved nodes'
  assume old_lt: "old_i < length (enabledNodes p)"
    and new_lt: "new_i < length (enabledNodes p)"
    and moved: "moved = (if swap then swap_nodes old_i new_i (enabledNodes p)
                      else shift_nodes old_i new_i (enabledNodes p))"
    and nodes': "nodes' = rederive_index (min old_i new_i) (max old_i new_i) moved"
    and a: "app (sort_step swap st ev)
              = setValues p (node_values nodes') (lastParent s) (app st)"
    and ps: "parents (sort_step swap st ev)
              = (parents st)(lastParent s \<mapsto> p\<lparr>enabledNodes := nodes'\<rparr>)"
    and l: "map_option lastParent (session (sort_step swap st ev)) = Some (lastParent s)"
  obtain s' where s': "session (sort_step swap st ev) = Some s'"
    and l': "lastParent s' = lastParent s"
    using l by auto
  have perm: "mset moved = mset (enabledNodes p)"
    using old_lt new_lt by (simp add: moved mset_swap_nodes mset_shift_nodes)
  have vals: "mset (node_values nodes') = mset (node_values (enabledNodes p))"
    unfolding nodes' node_values_rederive_index using perm by (rule mset_node_values)
  have rd: "getValues p (lastParent s) (app (sort_step swap st ev)) = node_values nodes'"
    using rb by (simp add: reads_back_def a)
  have p': "parents (sort_step swap st ev) (lastParent s) = Some (p\<lparr>enabledNodes := nodes'\<rparr>)"
    by (simp add: ps)
  show ?thesis
    using s' l' p' rd vals
    by (intro exI [of _ s'] exI [of _ "p\<lparr>enabledNodes := nodes'\<rparr>"]) simp
qed

lemma sort_session_keeps:
  assumes "session st = Some s"
    and "parents st (lastParent s) = Some p"
    and "reads_back p (lastParent s)"
    and "getValues p (lastParent s) (app st) = node_values (enabledNodes p)"
  shows "\<exists>s' p'. session (sort_session swap st evs) = Some s'
           \<and> lastParent s' = lastParent s
           \<and> parents (sort_session swap st evs) (lastParent s) = Some p'
           \<and> getValues p' (lastParent s) (app (sort_session swap st evs))
               = node_values (enabledNodes p')
           \<and> mset (node_values (enabledNodes p')) = mset (node_values (enabledNodes p))"
  using assms
proof (induction evs arbitrary: st s p)
  case Nil
  then show ?case
    by (simp add: sort_session_def)
next
  case (Cons ev evs)
  obtain s1 p1 where s1: "session (sort_step swap st ev) = Some s1"
    and l1: "lastParent s1 = lastParent s"
    and p1: "parents (sort_step swap st ev) (lastParent s) = Some p1"
    and g1: "getValues p1 = getValues p" and sv1: "setValues p1 = setValues p"
    and m1: "getValues p1 (lastParent s) (app (sort_step swap st ev))
               = node_values (enabledNodes p1)"
    and v1: "mset (node_values (enabledNodes p1)) = mset (node_values (enabledNodes p))"
    using sort_step_keeps [OF Cons.prems, of swap ev] by blast
  have rb1: "reads_back p1 (lastParent s1)"
    using Cons.prems(3) by (simp add: reads_back_def g1 sv1 l1)
  obtain s2 p2 where "session (sort_session swap (sort_step swap st ev) evs) = Some s2"
    and "lastParent s2 = lastParent s1"
    and "parents (sort_session swap (sort_step swap st ev) evs) (lastParent s1) = Some p2"
    and "getValues p2 (lastParent s1) (app (sort_session swap (sort_step swap st ev) evs))
               = node_values (enabledNodes p2)"
    and "mset (node_values (enabledNodes p2)) = mset (node_values (enabledNodes p1))"
    using Cons.IH [of "sort_step swap st ev" s1 p1] s1 p1 rb1 m1 l1 by auto
  then show ?case
    using l1 v1 by (simp add: sort_session_def)
qed

text \<open>
  C1: for every sequence of over-events of one drag session within one parent, under
  either policy, the backing collection after the last commit is a permutation of the
  collection before the session, and it is the values of the parent's \<open>enabledNodes\<close>
  in their order. The session starts with the collection matching \<open>enabledNodes\<close> (the
  invariant of a Node record, section 3), and the parent's accessors return what
  they were given.
\<close>

theorem sort_session_permutation:
  assumes "session st = Some s"
    and "parents st (lastParent s) = Some p"
    and "reads_back p (lastParent s)"
    and "backing_collection st = Some (node_values (enabledNodes p))"
  shows "\<exists>vs nodes. backing_collection (sort_session swap st evs) = Some vs
           \<and> current_nodes (sort_session swap st evs) = Some nodes
           \<and> mset vs = mset (node_values (enabledNodes p))
           \<and> vs = node_values nodes"
proof -
  have m: "getValues p (lastParent s) (app st) = node_values (enabledNodes p)"
    using assms(1,2,4) by (simp add: backing_collection_def)
  obtain s' p' where "session (sort_session swap st evs) = Some s'"
    and "lastParent s' = lastParent s"
    and "parents (sort_session swap st evs) (lastParent s) = Some p'"
    and "getValues p' (lastParent s) (app (sort_session swap st evs))
               = node_values (enabledNodes p')"
    and "mset (node_values (enabledNodes p')) = mset (node_values (enabledNodes p))"
    using sort_session_keeps [OF assms(1,2,3) m, of swap evs] by blast
  then show ?thesis
    by (simp add: backing_collection_def current_nodes_def)
qed

text \<open>
  The instance of C1 on the small instance: the first of \<open>A\<close>, \<open>B\<close>, \<open>C\<close>, \<open>D\<close> is
  dragged onto the position of \<open>D\<close> under the shift policy.
\<close>

theorem sort_session_permutation_witness:
  "session demo_engine = Some demo_session
   \<and> parents demo_engine (lastParent demo_session) = Some demo_p1
   \<and> reads_back demo_p1 (lastParent demo_session)
   \<and> backing_collection demo_engine = Some (node_values (enabledNodes demo_p1))
   \<and> (\<exists>vs nodes.
         backing_collection
           (sort_session False demo_engine [\<lparr>target = 3, in_dead_zone = False\<rparr>]) = Some vs
         \<and> current_nodes
           (sort_session False demo_engine [\<lparr>target = 3, in_dead_zone = False\<rparr>]) = Some nodes
         \<and> mset vs = mset (node_values (enabledNodes demo_p1))
         \<and> vs = node_values nodes)"
proof -
  have a: "session demo_engine = Some demo_session"
    by (simp add: demo_engine_def)
  have b: "parents demo_engine (lastParent demo_session) = Some demo_p1"
    by (simp add: demo_engine_def demo_session_def)
  have c: "reads_back demo_p1 (lastParent demo_session)"
    by (simp add: reads_back_def demo_p1_def demo_parent_def)
  have d: "backing_collection demo_engine = Some (node_values (enabledNodes demo_p1))"
    by (simp add: backing_collection_def demo_engine_def demo_session_def demo_p1_def
        demo_parent_def demo_node_def node_values_def)
  show ?thesis
    using a b c d sort_session_permutation [OF a b c d, of False "[\<lparr>target = 3, in_dead_zone = False\<rparr>]"]
    by simp
qed

text \<open>
  The two orders the spec gives as testable (section 8): dragging the first of
  \<open>A\<close>, \<open>B\<close>, \<open>C\<close>, \<open>D\<close> onto the position of \<open>D\<close> with the shift policy yields
  \<open>B\<close>, \<open>C\<close>, \<open>D\<close>, \<open>A\<close>; swapping \<open>A\<close> with its neighbour \<open>B\<close> exchanges the two.
\<close>

lemma demo_shift:
  "backing_collection (sort_session False demo_engine [\<lparr>target = 3, in_dead_zone = False\<rparr>])
     = Some [''B'', ''C'', ''D'', ''A'']"
  by (simp add: sort_session_def sort_step_def backing_collection_def demo_engine_def
      demo_session_def demo_p1_def demo_parent_def demo_node_def node_values_def
      clamp_index_def shift_nodes_def rederive_index_def Let_def)

lemma demo_swap:
  "backing_collection (sort_session True demo_engine [\<lparr>target = 1, in_dead_zone = False\<rparr>])
     = Some [''B'', ''A'', ''C'', ''D'']"
  by (simp add: sort_session_def sort_step_def backing_collection_def demo_engine_def
      demo_session_def demo_p1_def demo_parent_def demo_node_def node_values_def
      clamp_index_def swap_nodes_def rederive_index_def Let_def)

lemma demo_indices:
  "map_option (map (\<lambda>r. (node_el r, index (n_data r))))
     (current_nodes (sort_session False demo_engine [\<lparr>target = 3, in_dead_zone = False\<rparr>]))
     = Some [(11, 0), (12, 1), (13, 2), (10, 3)]"
  by (simp add: sort_session_def sort_step_def current_nodes_def demo_engine_def
      demo_session_def demo_p1_def demo_parent_def demo_node_def node_values_def
      clamp_index_def shift_nodes_def rederive_index_def Let_def)

section \<open>Sorting keeps the indices\<close>

lemma length_rederive_index: "length (rederive_index lo hi nodes) = length nodes"
  by (simp add: rederive_index_def)

lemma nth_rederive_index:
  "k < length nodes \<Longrightarrow>
     rederive_index lo hi nodes ! k
       = (if lo \<le> k \<and> k \<le> hi then (nodes ! k)\<lparr>n_data := (n_data (nodes ! k))\<lparr>index := k\<rparr>\<rparr>
          else nodes ! k)"
  by (simp add: rederive_index_def nth_enumerate_eq)

lemma length_swap_nodes: "length (swap_nodes i j xs) = length xs"
  by (simp add: swap_nodes_def)

lemma length_shift_nodes:
  "i < length xs \<Longrightarrow> j < length xs \<Longrightarrow> length (shift_nodes i j xs) = length xs"
  by (auto simp: shift_nodes_def Let_def)

lemma nth_swap_nodes_outside:
  "k \<noteq> i \<Longrightarrow> k \<noteq> j \<Longrightarrow> swap_nodes i j xs ! k = xs ! k"
  by (simp add: swap_nodes_def)

lemma nth_shift_nodes_outside:
  assumes i: "i < length xs" and j: "j < length xs"
    and k: "k < min i j \<or> max i j < k"
  shows "shift_nodes i j xs ! k = xs ! k"
proof -
  define ys where "ys = take i xs @ drop (Suc i) xs"
  have lys: "Suc (length ys) = length xs"
    using i by (simp add: ys_def)
  have res: "shift_nodes i j xs = take j ys @ xs ! i # drop j ys"
    by (simp add: shift_nodes_def ys_def Let_def)
  have ltake: "length (take j ys) = j"
    using j lys by simp
  from k show ?thesis
  proof
    assume "k < min i j"
    then have ki: "k < i" and kj: "k < j"
      by simp_all
    have "shift_nodes i j xs ! k = take j ys ! k"
      unfolding res using kj ltake by (simp add: nth_append)
    also have "\<dots> = ys ! k"
      using kj by simp
    also have "\<dots> = xs ! k"
      using ki i by (simp add: ys_def nth_append)
    finally show ?thesis .
  next
    assume "max i j < k"
    then have ik: "i < k" and jk: "j < k"
      by simp_all
    have "shift_nodes i j xs ! k = (xs ! i # drop j ys) ! (k - j)"
      unfolding res using jk ltake by (simp add: nth_append)
    also have "\<dots> = drop j ys ! (k - j - 1)"
      using jk by (simp add: nth_Cons')
    also have "\<dots> = ys ! (k - 1)"
      using jk j lys by simp
    also have "\<dots> = drop (Suc i) xs ! (k - 1 - i)"
    proof -
      have "\<not> k - Suc 0 < i"
        using ik by arith
      then show ?thesis
        using i by (simp add: ys_def nth_append)
    qed
    also have "\<dots> = xs ! k"
      using ik i by simp
    finally show ?thesis .
  qed
qed

text \<open>A commit leaves every node with its position as index.\<close>

lemma indices_ok_commit:
  assumes ok: "indices_ok nodes"
    and i: "i < length nodes" and j: "j < length nodes"
    and moved: "moved = (if swap then swap_nodes i j nodes else shift_nodes i j nodes)"
  shows "indices_ok (rederive_index (min i j) (max i j) moved)"
proof -
  have len: "length moved = length nodes"
    using i j by (simp add: moved length_swap_nodes length_shift_nodes)
  have orig: "index (n_data (nodes ! k)) = k" if "k < length nodes" for k
  proof -
    have "map (\<lambda>r. index (n_data r)) nodes ! k = [0..<length nodes] ! k"
      using ok by (simp add: indices_ok_def)
    then show ?thesis
      using that by simp
  qed
  have outside: "moved ! k = nodes ! k"
    if "k < length nodes" and "\<not> (min i j \<le> k \<and> k \<le> max i j)" for k
  proof (cases swap)
    case True
    have "k \<noteq> i" and "k \<noteq> j"
      using that(2) by auto
    then show ?thesis
      using True by (simp add: moved nth_swap_nodes_outside)
  next
    case False
    have "k < min i j \<or> max i j < k"
      using that(2) by arith
    then show ?thesis
      using False i j by (simp add: moved nth_shift_nodes_outside)
  qed
  have "index (n_data (rederive_index (min i j) (max i j) moved ! k)) = k"
    if "k < length nodes" for k
    using that len orig [OF that] outside [OF that]
    by (simp add: nth_rederive_index)
  then show ?thesis
    unfolding indices_ok_def
    by (intro nth_equalityI) (simp_all add: length_rederive_index len)
qed

text \<open>
  So the index the step reads from the dragged node is its position: an over-event
  keeps the indices of \<open>enabledNodes\<close> right.
\<close>

lemma sort_step_indices:
  assumes s: "session st = Some s"
    and p: "parents st (lastParent s) = Some p"
    and ok: "indices_ok (enabledNodes p)"
  shows "\<exists>s' p'. session (sort_step swap st ev) = Some s'
           \<and> lastParent s' = lastParent s
           \<and> parents (sort_step swap st ev) (lastParent s) = Some p'
           \<and> indices_ok (enabledNodes p')"
  using sort_step_cases [OF s p, of swap ev]
proof (elim disjE exE conjE)
  assume "sort_step swap st ev = st"
  then show ?thesis
    using s p ok by simp
next
  fix old_i new_i moved nodes'
  assume old_lt: "old_i < length (enabledNodes p)"
    and new_lt: "new_i < length (enabledNodes p)"
    and moved: "moved = (if swap then swap_nodes old_i new_i (enabledNodes p)
                      else shift_nodes old_i new_i (enabledNodes p))"
    and nodes': "nodes' = rederive_index (min old_i new_i) (max old_i new_i) moved"
    and ps: "parents (sort_step swap st ev)
              = (parents st)(lastParent s \<mapsto> p\<lparr>enabledNodes := nodes'\<rparr>)"
    and l: "map_option lastParent (session (sort_step swap st ev)) = Some (lastParent s)"
  obtain s' where s': "session (sort_step swap st ev) = Some s'"
    and l': "lastParent s' = lastParent s"
    using l by auto
  have "indices_ok nodes'"
    unfolding nodes' using ok old_lt new_lt moved by (rule indices_ok_commit)
  then show ?thesis
    using s' l' by (simp add: ps)
qed

lemma sort_session_indices:
  assumes "session st = Some s"
    and "parents st (lastParent s) = Some p"
    and "indices_ok (enabledNodes p)"
  shows "\<exists>nodes. current_nodes (sort_session swap st evs) = Some nodes \<and> indices_ok nodes"
  using assms
proof (induction evs arbitrary: st s p)
  case Nil
  then show ?case
    by (simp add: sort_session_def current_nodes_def)
next
  case (Cons ev evs)
  obtain s1 p1 where s1: "session (sort_step swap st ev) = Some s1"
    and l1: "lastParent s1 = lastParent s"
    and p1: "parents (sort_step swap st ev) (lastParent s) = Some p1"
    and ok1: "indices_ok (enabledNodes p1)"
    using sort_step_indices [OF Cons.prems, of swap ev] by blast
  have "\<exists>nodes. current_nodes (sort_session swap (sort_step swap st ev) evs) = Some nodes
          \<and> indices_ok nodes"
    using Cons.IH [of "sort_step swap st ev" s1 p1] s1 p1 ok1 l1 by simp
  then show ?case
    by (simp add: sort_session_def)
qed

section \<open>Transfers between parents\<close>

lemma find_member_accepts:
  "find_member ParentConfig ''accepts''
     = Some (True,
         TFun [(''targetParentData'', TRef ''ParentRecord''),
               (''initialParentData'', TRef ''ParentRecord''),
               (''lastParentData'', TRef ''ParentRecord''),
               (''state'', TUnion [TRef ''DragState'', TRef ''TouchState''])] TBoolean)"
  unfolding find_member_def members_of_ParentConfig
  by (simp add: ParentConfig_def required_def optional_def)

lemma transfer_permitted_iff:
  "transfer_permitted acc tp ip lp s
     = (cfg_group (config (p_data tp)) = cfg_group (config (p_data lp))
        \<or> (\<exists>f. acc = Some f \<and> f tp ip lp s))"
  by (cases acc) (simp_all add: transfer_permitted_def)

lemma transfer_rejected:
  assumes "session st = Some s"
    and "parents st tgt = Some td"
    and "parents st (initialParent s) = Some idt"
    and "parents st (lastParent s) = Some ld"
    and "\<not> transfer_permitted (acc tgt) \<lparr>parent_el = tgt, p_data = td\<rparr>
            \<lparr>parent_el = initialParent s, p_data = idt\<rparr>
            \<lparr>parent_el = lastParent s, p_data = ld\<rparr> s"
  shows "transfer acc st tgt i = st"
  using assms by (simp add: transfer_def)

lemma transfer_accepted:
  assumes "session st = Some s"
    and "tgt \<noteq> lastParent s"
    and "parents st tgt = Some td"
    and "parents st (initialParent s) = Some idt"
    and "parents st (lastParent s) = Some ld"
    and "transfer_permitted (acc tgt) \<lparr>parent_el = tgt, p_data = td\<rparr>
            \<lparr>parent_el = initialParent s, p_data = idt\<rparr>
            \<lparr>parent_el = lastParent s, p_data = ld\<rparr> s"
  shows "session (transfer acc st tgt i) = Some (s\<lparr>lastParent := tgt, preventEnter := True\<rparr>)"
  using assms by (simp add: transfer_def Let_def)

text \<open>
  C4: a transfer to another parent is carried out exactly when the target parent's
  group equals the group of the parent that holds the dragged node, or the target's
  configuration supplies an \<open>accepts\<close> predicate that returns true for the target,
  initial and last parent records and the session state; so a true result overrides a
  group mismatch. Otherwise the transfer is rejected and the engine's state, the
  collections with it, is unchanged. The source declares \<open>accepts\<close> as an optional
  function of these four arguments to \<open>boolean\<close>.
\<close>

theorem transfer_group_or_accepts:
  assumes "session st = Some s"
    and "tgt \<noteq> lastParent s"
    and "parents st tgt = Some td"
    and "parents st (initialParent s) = Some idt"
    and "parents st (lastParent s) = Some ld"
  shows "(map_option lastParent (session (transfer acc st tgt i)) = Some tgt)
           = (cfg_group (config td) = cfg_group (config ld)
              \<or> (\<exists>f. acc tgt = Some f
                    \<and> f \<lparr>parent_el = tgt, p_data = td\<rparr>
                        \<lparr>parent_el = initialParent s, p_data = idt\<rparr>
                        \<lparr>parent_el = lastParent s, p_data = ld\<rparr> s))
         \<and> (transfer acc st tgt i = st)
           = (\<not> (cfg_group (config td) = cfg_group (config ld)
              \<or> (\<exists>f. acc tgt = Some f
                    \<and> f \<lparr>parent_el = tgt, p_data = td\<rparr>
                        \<lparr>parent_el = initialParent s, p_data = idt\<rparr>
                        \<lparr>parent_el = lastParent s, p_data = ld\<rparr> s)))
         \<and> find_member ParentConfig ''accepts''
           = Some (True,
               TFun [(''targetParentData'', TRef ''ParentRecord''),
                     (''initialParentData'', TRef ''ParentRecord''),
                     (''lastParentData'', TRef ''ParentRecord''),
                     (''state'', TUnion [TRef ''DragState'', TRef ''TouchState''])] TBoolean)"
proof (cases "transfer_permitted (acc tgt) \<lparr>parent_el = tgt, p_data = td\<rparr>
            \<lparr>parent_el = initialParent s, p_data = idt\<rparr>
            \<lparr>parent_el = lastParent s, p_data = ld\<rparr> s")
  case True
  have acc: "session (transfer acc st tgt i)
      = Some (s\<lparr>lastParent := tgt, preventEnter := True\<rparr>)"
    using assms True by (rule transfer_accepted)
  have "transfer acc st tgt i \<noteq> st"
  proof
    assume "transfer acc st tgt i = st"
    then have "Some (s\<lparr>lastParent := tgt, preventEnter := True\<rparr>) = Some s"
      using acc assms(1) by simp
    then have "lastParent (s\<lparr>lastParent := tgt, preventEnter := True\<rparr>) = lastParent s"
      by simp
    then show False
      using assms(2) by simp
  qed
  then show ?thesis
    using True acc find_member_accepts by (simp add: transfer_permitted_iff)
next
  case False
  have same: "transfer acc st tgt i = st"
    using assms(1,3,4,5) False by (rule transfer_rejected)
  show ?thesis
    unfolding same using False assms(1,2) find_member_accepts
    by (auto simp: transfer_permitted_iff)
qed

text \<open>
  The instance of C4 on the small instance: parent 2 is of another group than parent
  1 and supplies an \<open>accepts\<close> predicate that returns true, so the transfer is carried
  out.
\<close>

theorem transfer_group_or_accepts_witness:
  "session demo_engine = Some demo_session
   \<and> 2 \<noteq> lastParent demo_session
   \<and> parents demo_engine 2 = Some demo_p2
   \<and> parents demo_engine (initialParent demo_session) = Some demo_p1
   \<and> parents demo_engine (lastParent demo_session) = Some demo_p1
   \<and> cfg_group (config demo_p2) \<noteq> cfg_group (config demo_p1)
   \<and> map_option lastParent (session (transfer demo_accepts demo_engine 2 0)) = Some 2
   \<and> transfer demo_accepts demo_engine 2 0 \<noteq> demo_engine"
proof -
  have a: "session demo_engine = Some demo_session"
    by (simp add: demo_engine_def)
  have b: "2 \<noteq> lastParent demo_session"
    by (simp add: demo_session_def)
  have c: "parents demo_engine 2 = Some demo_p2"
    by (simp add: demo_engine_def)
  have d: "parents demo_engine (initialParent demo_session) = Some demo_p1"
    by (simp add: demo_engine_def demo_session_def)
  have e: "parents demo_engine (lastParent demo_session) = Some demo_p1"
    by (simp add: demo_engine_def demo_session_def)
  have g: "cfg_group (config demo_p2) \<noteq> cfg_group (config demo_p1)"
    by (simp add: demo_p1_def demo_p2_def demo_parent_def)
  have f: "demo_accepts 2 = Some (\<lambda>tp ip lp s. True)"
    by (simp add: demo_accepts_def)
  show ?thesis
    using a b c d e g transfer_group_or_accepts [OF a b c d e, of demo_accepts 0]
    by (simp add: f)
qed

text \<open>
  The transfers the spec gives as testable (section 8): with the predicate that accepts,
  \<open>A\<close> leaves the collection of parent 1 and enters that of parent 2 at the resolved
  index; with no predicate and the groups differing, both collections stay as they are.
\<close>

lemma demo_transfer_accepted:
  "map (app (transfer demo_accepts demo_engine 2 0)) [1, 2]
     = [[''B'', ''C'', ''D''], [''A'', ''E'']]"
  by (simp add: transfer_def transfer_permitted_def demo_accepts_def demo_engine_def
      demo_session_def demo_p1_def demo_p2_def demo_parent_def demo_node_def node_values_def
      dragged_values_def remove_values_def insert_at_def Let_def)

lemma demo_transfer_rejected:
  "map (app (transfer (\<lambda>e. None) demo_engine 2 0)) [1, 2]
     = [[''A'', ''B'', ''C'', ''D''], [''E'']]"
  by (simp add: transfer_def transfer_permitted_def demo_engine_def
      demo_session_def demo_p1_def demo_p2_def demo_parent_def)

section \<open>Registration fails loudly\<close>

text \<open>
  C6: registration raises an error exactly for the configurations that are not well
  formed, those with a required hook missing or a threshold fraction outside [0, 1];
  on a well-formed one, and on no other, it completes, with the parent record of the
  given element, accessors and merged configuration.
\<close>

theorem registerParent_fails_loudly:
  "(\<exists>e. registerParent dflt d = Inl e) = (\<not> well_formed dflt d)
   \<and> (\<exists>r. registerParent dflt d = Inr r
          \<and> parent_el r = dnd_parent d
          \<and> Some (getValues (p_data r)) = dnd_getValues d
          \<and> Some (setValues (p_data r)) = dnd_setValues d
          \<and> config (p_data r) = merge_config dflt (dnd_config d)
          \<and> enabledNodes (p_data r) = []) = well_formed dflt d"
proof (cases "dnd_getValues d")
  case None
  then show ?thesis
    by (simp add: registerParent_def well_formed_def)
next
  case g: (Some g)
  show ?thesis
  proof (cases "dnd_setValues d")
    case None
    then show ?thesis
      using g by (simp add: registerParent_def well_formed_def)
  next
    case (Some sv)
    then show ?thesis
      using g by (auto simp: registerParent_def well_formed_def Let_def)
  qed
qed

text \<open>
  Registration with a horizontal threshold of 3/2 raises the error of the threshold;
  with 1/4 it completes.
\<close>

lemma demo_registration_fails:
  "registerParent demo_defaults (demo_registration (3 / 2))
     = Inl (ThresholdOutOfRange ''horizontal'')"
  by (simp add: registerParent_def demo_registration_def demo_defaults_def merge_config_def
      is_fraction_def)

lemma demo_registration_completes:
  "map_sum id parent_el (registerParent demo_defaults (demo_registration (1 / 4))) = Inr 1"
  by (simp add: registerParent_def demo_registration_def demo_defaults_def merge_config_def
      is_fraction_def)

text \<open>
  The instance of C6 on a registration whose horizontal threshold is 3/2: it is not
  well formed, and registration raises an error.
\<close>

theorem registerParent_fails_loudly_witness:
  "\<not> well_formed demo_defaults (demo_registration (3 / 2))
   \<and> (\<exists>e. registerParent demo_defaults (demo_registration (3 / 2)) = Inl e)"
proof -
  have "\<not> well_formed demo_defaults (demo_registration (3 / 2))"
    by (simp add: well_formed_def demo_registration_def demo_defaults_def merge_config_def
        is_fraction_def)
  then show ?thesis
    using registerParent_fails_loudly [of demo_defaults "demo_registration (3 / 2)"]
    by simp
qed

end
